theory Spec2Isabelle
  imports Main "HOL-Library.Word"
begin

section \<open>JavaScript values used by the scraper\<close>

text \<open>
  A JavaScript value of type \<^verbatim>\<open>string | undefined\<close> is a \<open>string option\<close>, with \<open>None\<close>
  for \<^verbatim>\<open>undefined\<close>. \<open>js_to_string\<close> is the implicit \<^verbatim>\<open>ToString\<close> conversion that string
  concatenation and \<^verbatim>\<open>RegExp.prototype.test\<close> apply to their argument.
\<close>

definition js_to_string :: "string option \<Rightarrow> string" where
  "js_to_string v = (case v of None \<Rightarrow> ''undefined'' | Some s \<Rightarrow> s)"

text \<open>
  An awaited call of the browser automation library either resolves with a value or
  rejects with an error; a rejection is what \<^verbatim>\<open>await\<close> throws.
\<close>

datatype js_error = TimeoutError | NavigationError | SelectorNotFound | NotClickable

datatype 'a outcome = Resolved 'a | Rejected js_error

section \<open>Product records\<close>

text \<open>
  \<^verbatim>\<open>IProductInfo\<close> has the five fields that \<^verbatim>\<open>scrapePage\<close> fills in. Each may be
  \<^verbatim>\<open>undefined\<close> at run time, since the extractors return \<^verbatim>\<open>undefined\<close> on a miss.
\<close>

record IProductInfo =
  productName :: "string option"
  storeName :: "string option"
  productPrice :: "string option"
  productLink :: "string option"
  productImage :: "string option"

section \<open>Price pattern\<close>

text \<open>
  \<^verbatim>\<open>const pricePerPoundRegex = /^\$[\d.]+\/lb$/;\<close>
  The pattern has no flags, so \<^verbatim>\<open>^\<close> and \<^verbatim>\<open>$\<close> are the two ends of the input and \<^verbatim>\<open>\d\<close>
  is an ASCII digit. The character after the class, \<^verbatim>\<open>/\<close>, is not in the class, so the
  greedy run of class characters is the only candidate for \<^verbatim>\<open>[\d.]+\<close>.
\<close>

definition isDigitOrDot :: "char \<Rightarrow> bool" where
  "isDigitOrDot c = (c \<in> set ''0123456789.'')"

definition pricePerPoundRegex_test :: "string \<Rightarrow> bool" where
  "pricePerPoundRegex_test s =
     (case s of
        [] \<Rightarrow> False
      | c # rest \<Rightarrow>
          c = CHR ''$'' \<and> takeWhile isDigitOrDot rest \<noteq> [] \<and>
          dropWhile isDigitOrDot rest = ''/lb'')"

text \<open>
  The same pattern in words, for comparison: a dollar sign, one or more digits or dots,
  then \<^verbatim>\<open>/lb\<close>, and nothing else.
\<close>

definition perUnitPrice :: "string \<Rightarrow> bool" where
  "perUnitPrice t =
     (\<exists>ds. ds \<noteq> [] \<and> (\<forall>c\<in>set ds. c \<in> set ''0123456789.'') \<and> t = ''$'' @ ds @ ''/lb'')"

section \<open>Extraction of one page\<close>

text \<open>
  The \<^verbatim>\<open>Extractors\<close> class is a collaborator: its five methods are parameters here. Each
  takes a product cell and a selector and returns the property it reads, or \<^verbatim>\<open>undefined\<close>.
\<close>

record 'c Extractors =
  extractFromAria :: "'c \<Rightarrow> string \<Rightarrow> string option"
  extractProductImage :: "'c \<Rightarrow> string \<Rightarrow> string option"
  extractTextContent :: "'c \<Rightarrow> string \<Rightarrow> string option"
  extractFromValue :: "'c \<Rightarrow> string \<Rightarrow> string option"
  extractProductURL :: "string \<Rightarrow> 'c \<Rightarrow> string \<Rightarrow> string option"

text \<open>The body of the \<^verbatim>\<open>for (const product of productsGrid)\<close> loop, up to the \<^verbatim>\<open>push\<close>.\<close>

definition scrapeProduct :: "'c Extractors \<Rightarrow> 'c \<Rightarrow> IProductInfo" where
  "scrapeProduct extractorObj product =
     (let name = extractFromAria extractorObj product ''.mb-4 > .kds-Link'';
          image = extractProductImage extractorObj product
                    ''.kds-Link > .h-full > .kds-Image-img'';
          textPrice = extractTextContent extractorObj product ''div > * >.kds-Text--s'';
          price =
            (if \<not> pricePerPoundRegex_test (js_to_string textPrice)
             then Some (''$'' @ js_to_string
                          (extractFromValue extractorObj product ''.kds-Price--alternate''))
             else textPrice);
          productURL = extractProductURL extractorObj ''https://www.fredmeyer.com'' product
                         ''.mb-4 > .kds-Link''
      in \<lparr>productName = name, storeName = Some ''Fred Meyer'', productPrice = price,
          productLink = productURL, productImage = image\<rparr>)"

text \<open>The loop itself: \<open>productData\<close> starts empty and every cell pushes one record.\<close>

fun scrapePage_loop :: "'c Extractors \<Rightarrow> 'c list \<Rightarrow> IProductInfo list \<Rightarrow> IProductInfo list"
  where
  "scrapePage_loop extractorObj [] productData = productData"
| "scrapePage_loop extractorObj (product # products) productData =
     scrapePage_loop extractorObj products (productData @ [scrapeProduct extractorObj product])"

text \<open>
  \<open>productsGrid\<close> is what \<^verbatim>\<open>productGridContainer.$$(".AutoGrid-cell > *")\<close> returns: the
  cells under the grid, in document order.
\<close>

definition scrapePage :: "'c Extractors \<Rightarrow> 'c list \<Rightarrow> IProductInfo list" where
  "scrapePage extractorObj productsGrid = scrapePage_loop extractorObj productsGrid []"

section \<open>Delays read from the environment\<close>

text \<open>
  The value of an environment variable is a JavaScript string: a sequence of UTF-16 code
  units. \<open>units\<close> writes an ASCII string as its code units. \<open>envToString\<close> is the
  \<^verbatim>\<open>ToString\<close> that \<^verbatim>\<open>parseInt\<close> applies to its argument: an unset variable is
  \<^verbatim>\<open>undefined\<close> and reads as the string \<^verbatim>\<open>"undefined"\<close>.
\<close>

type_synonym js_string = "16 word list"

definition units :: "string \<Rightarrow> js_string" where
  "units s = map (\<lambda>c. of_nat (of_char c)) s"

definition envToString :: "js_string option \<Rightarrow> js_string" where
  "envToString v = (case v of None \<Rightarrow> units ''undefined'' | Some s \<Rightarrow> s)"

text \<open>
  A JavaScript number, as far as \<^verbatim>\<open>parseInt\<close> can return one: \<^verbatim>\<open>NaN\<close>, an integer that an
  IEEE double holds exactly, or an infinity. Both zeros are \<open>Number 0\<close>; they are equally
  falsy.
\<close>

datatype js_number = NaN | Number int | PlusInfinity | MinusInfinity

text \<open>
  The characters \<^verbatim>\<open>parseInt\<close> skips at the start: the language's white space (tab, vertical
  tab, form feed, space, no-break space, the byte order mark and the other space
  separators) and its line terminators (line feed, carriage return, line and paragraph
  separator).
\<close>

definition isStrWhiteSpace :: "16 word \<Rightarrow> bool" where
  "isStrWhiteSpace c =
     (let n = unat c
      in n \<in> set [0x9, 0xA, 0xB, 0xC, 0xD, 0x20, 0xA0, 0x1680, 0x2028, 0x2029, 0x202F,
                   0x205F, 0x3000, 0xFEFF] \<or>
         (0x2000 \<le> n \<and> n \<le> 0x200A))"

text \<open>The value of a digit or letter in radix \<open>R\<close>, if it is a digit of that radix.\<close>

definition radixDigit :: "nat \<Rightarrow> 16 word \<Rightarrow> nat option" where
  "radixDigit R c =
     (let n = unat c;
          v = (if 48 \<le> n \<and> n \<le> 57 then Some (n - 48)
               else if 97 \<le> n \<and> n \<le> 122 then Some (n - 87)
               else if 65 \<le> n \<and> n \<le> 90 then Some (n - 55)
               else None)
      in case v of None \<Rightarrow> None | Some d \<Rightarrow> if d < R then Some d else None)"

fun digitsValue :: "nat \<Rightarrow> nat \<Rightarrow> js_string \<Rightarrow> nat" where
  "digitsValue R acc [] = acc"
| "digitsValue R acc (c # cs) =
     digitsValue R (acc * R + (case radixDigit R c of None \<Rightarrow> 0 | Some d \<Rightarrow> d)) cs"

text \<open>
  The number value of a mathematical integer: the nearest double, ties to the even
  significand. Below \<open>2 ^ 53\<close> every integer is a double; above, the low bits beyond the
  53-bit significand are rounded away; from \<open>2 ^ 1024\<close> on the result is an infinity.
\<close>

fun bitLength :: "nat \<Rightarrow> nat" where
  "bitLength n = (if n = 0 then 0 else Suc (bitLength (n div 2)))"

definition roundTiesToEven :: "nat \<Rightarrow> nat" where
  "roundTiesToEven n =
     (if n < 2 ^ 53 then n
      else let e = bitLength n - 53;
               q = n div 2 ^ e;
               r = n mod 2 ^ e;
               half = 2 ^ (e - 1)
           in (if half < r \<or> (r = half \<and> odd q) then q + 1 else q) * 2 ^ e)"

definition toNumber :: "bool \<Rightarrow> nat \<Rightarrow> js_number" where
  "toNumber negative n =
     (let v = roundTiesToEven n
      in if 2 ^ 1024 \<le> v then (if negative then MinusInfinity else PlusInfinity)
         else Number (if negative then - int v else int v))"

text \<open>
  \<^verbatim>\<open>parseInt(string)\<close> without a radix: leading white space is skipped, one sign is read,
  a \<^verbatim>\<open>0x\<close> or \<^verbatim>\<open>0X\<close> prefix selects radix 16, and the longest prefix of digits is the
  value, as a number; no digit at all gives \<^verbatim>\<open>NaN\<close>. (The language lets an implementation
  approximate a decimal numeral after its 20th significant digit; the runtime rounds the
  exact value.)
\<close>

definition parseInt :: "js_string \<Rightarrow> js_number" where
  "parseInt inputString =
     (let S = dropWhile isStrWhiteSpace inputString;
          negative = (case S of [] \<Rightarrow> False | c # _ \<Rightarrow> c = 0x2D);
          S1 = (case S of [] \<Rightarrow> [] | c # cs \<Rightarrow> if c = 0x2B \<or> c = 0x2D then cs else S);
          hex = (take 2 S1 = [0x30, 0x78] \<or> take 2 S1 = [0x30, 0x58]);
          R = (if hex then 16 else 10);
          S2 = (if hex then drop 2 S1 else S1);
          Z = takeWhile (\<lambda>c. radixDigit R c \<noteq> None) S2
      in if Z = [] then NaN else toNumber negative (digitsValue R 0 Z))"

text \<open>\<^verbatim>\<open>n || d\<close> on numbers: \<^verbatim>\<open>NaN\<close> and zero are falsy, every other number is kept.\<close>

definition orDefault :: "js_number \<Rightarrow> int \<Rightarrow> js_number" where
  "orDefault v d =
     (case v of
        NaN \<Rightarrow> Number d
      | Number n \<Rightarrow> if n = 0 then Number d else Number n
      | PlusInfinity \<Rightarrow> PlusInfinity
      | MinusInfinity \<Rightarrow> MinusInfinity)"

record process_env =
  CLICK_DELAY :: "js_string option"
  SCRAPE_DELAY :: "js_string option"

text \<open>\<^verbatim>\<open>parseInt(<string>process.env.CLICK_DELAY) || 500\<close>\<close>

definition clickDelay :: "process_env \<Rightarrow> js_number" where
  "clickDelay penv = orDefault (parseInt (envToString (CLICK_DELAY penv))) 500"

text \<open>\<^verbatim>\<open>parseInt(<string>process.env.SCRAPE_DELAY) || 3000\<close>\<close>

definition scrapeDelay :: "process_env \<Rightarrow> js_number" where
  "scrapeDelay penv = orDefault (parseInt (envToString (SCRAPE_DELAY penv))) 3000"

section \<open>One category page\<close>

text \<open>
  What \<^verbatim>\<open>scrapeSite\<close> does to the outside world, in order: the calls on the browser, the
  page and the sleep primitive. \<open>ScrapePage k\<close> is the call of \<^verbatim>\<open>scrapePage\<close> on the grid as
  it stands after \<open>k\<close> clicks on the load-more control.
\<close>

datatype effect =
    NewPage
  | Goto string
  | WaitForSelector string
  | SleepBeforeOperation js_number
  | Eval string
  | Click string
  | ScrapePage nat

text \<open>
  A handle on the product grid gives the cells found under it; the grid grows with every
  click on the load-more control, so the cells depend on the number of clicks so far.
\<close>

type_synonym 'c ElementHandle = "nat \<Rightarrow> 'c list"

text \<open>
  The page behind one URL, as far as \<^verbatim>\<open>scrapeSite\<close> can observe it: how each awaited call
  settles. \<open>eval_loadMore i\<close> and \<open>click_loadMore i\<close> are the probe and the click of the
  \<open>i\<close>-th iteration of the pagination loop, counted from 0. In the library,
  \<^verbatim>\<open>waitForSelector\<close> rejects with a \<^verbatim>\<open>TimeoutError\<close> when the selector has not appeared
  within its timeout, \<^verbatim>\<open>$eval\<close> rejects when nothing matches the selector, and \<^verbatim>\<open>click\<close>
  rejects when the element is missing or cannot be clicked. \<^verbatim>\<open>sleepBeforeOperation\<close> is
  taken to resolve after the delay, and \<^verbatim>\<open>goto\<close> to settle.
\<close>

record 'c page_env =
  newPage :: "unit outcome"
  goto :: "unit outcome"
  waitForSelector :: "'c ElementHandle option outcome"
  eval_loadMore :: "nat \<Rightarrow> bool outcome"
  click_loadMore :: "nat \<Rightarrow> unit outcome"

definition loadMoreSelector :: string where
  "loadMoreSelector = ''.mt-32 > .LoadMore__load-more-button''"

text \<open>
  The \<^verbatim>\<open>while (loadMoreResultsExists)\<close> loop. One iteration sleeps, probes and clicks
  inside one \<^verbatim>\<open>try\<close>; the \<^verbatim>\<open>catch\<close> clears the flag whatever was thrown. The loop may
  run forever, so it returns an option: \<open>None\<close> is a loop that never ends. The result is
  the number of clicks that went through and the effects so far.
\<close>

partial_function (option) loadMoreLoop ::
  "process_env \<Rightarrow> 'c page_env \<Rightarrow> nat \<Rightarrow> effect list \<Rightarrow> (nat \<times> effect list) option"
  where
  "loadMoreLoop penv page i log =
     (let log1 = log @ [SleepBeforeOperation (clickDelay penv), Eval loadMoreSelector]
      in case eval_loadMore page i of
           Rejected e \<Rightarrow> Some (i, log1)
         | Resolved b \<Rightarrow>
             (case click_loadMore page i of
                Rejected e \<Rightarrow> Some (i, log1 @ [Click loadMoreSelector])
              | Resolved u \<Rightarrow> loadMoreLoop penv page (Suc i) (log1 @ [Click loadMoreSelector])))"

text \<open>
  The effects of one iteration, for stating what the loop did: an iteration that got
  through sleeps, probes and clicks; the last one stops after the probe when the probe was
  rejected, and after the click otherwise.
\<close>

definition loopIteration :: "process_env \<Rightarrow> effect list" where
  "loopIteration penv =
     [SleepBeforeOperation (clickDelay penv), Eval loadMoreSelector, Click loadMoreSelector]"

definition lastIteration :: "process_env \<Rightarrow> 'c page_env \<Rightarrow> nat \<Rightarrow> effect list" where
  "lastIteration penv page i =
     (case eval_loadMore page i of
        Rejected e \<Rightarrow> [SleepBeforeOperation (clickDelay penv), Eval loadMoreSelector]
      | Resolved b \<Rightarrow> loopIteration penv)"

text \<open>
  Iteration \<open>j\<close> got through when its probe and its click both resolved; it failed when
  one of them was rejected, which is when the \<^verbatim>\<open>catch\<close> runs.
\<close>

definition gotThrough :: "'c page_env \<Rightarrow> nat \<Rightarrow> bool" where
  "gotThrough page j =
     ((\<exists>b. eval_loadMore page j = Resolved b) \<and> (\<exists>u. click_loadMore page j = Resolved u))"

definition failedAt :: "'c page_env \<Rightarrow> nat \<Rightarrow> bool" where
  "failedAt page j =
     ((\<exists>e. eval_loadMore page j = Rejected e) \<or> (\<exists>e. click_loadMore page j = Rejected e))"

text \<open>
  \<^verbatim>\<open>scrapeSite(url, browser, scrapeRecursively)\<close>. A rejected \<^verbatim>\<open>await\<close> outside the loop's
  \<^verbatim>\<open>try\<close> is thrown to the caller: the result is \<open>Inl\<close> of the error. \<open>Inr None\<close> is the
  returned \<^verbatim>\<open>null\<close>, \<open>Inr (Some ps)\<close> the returned array.
\<close>

definition scrapeSite ::
  "process_env \<Rightarrow> 'c Extractors \<Rightarrow> 'c page_env \<Rightarrow> string \<Rightarrow> bool \<Rightarrow>
     ((js_error + IProductInfo list option) \<times> effect list) option"
  where
  "scrapeSite penv extractorObj page url scrapeRecursively =
     (case newPage page of
        Rejected e \<Rightarrow> Some (Inl e, [NewPage])
      | Resolved _ \<Rightarrow>
     (case goto page of
        Rejected e \<Rightarrow> Some (Inl e, [NewPage, Goto url])
      | Resolved _ \<Rightarrow>
     (let log = [NewPage, Goto url, WaitForSelector ''.AutoGrid'']
      in case waitForSelector page of
           Rejected e \<Rightarrow> Some (Inl e, log)
         | Resolved None \<Rightarrow> Some (Inr None, log)
         | Resolved (Some productGridContainer) \<Rightarrow>
             if scrapeRecursively
             then (case loadMoreLoop penv page 0 log of
                     None \<Rightarrow> None
                   | Some (clicks, log') \<Rightarrow>
                       Some (Inr (Some (scrapePage extractorObj (productGridContainer clicks))),
                             log' @ [SleepBeforeOperation (scrapeDelay penv), ScrapePage clicks]))
             else Some (Inr (Some (scrapePage extractorObj (productGridContainer 0))),
                        log @ [ScrapePage 0]))))"

section \<open>Scrape coordinator\<close>

text \<open>
  Modelled from the spec: \<^verbatim>\<open>ScraperUtils.scrapeMultipleURLs\<close>, whose source is not part of
  the scraper file. The spec's contract (4.3): every category URL is handed to the scrape
  function with the caller's \<open>recursive\<close> flag; the settled results are collected under
  the caller's category keys; a category that throws, times out or returns \<^verbatim>\<open>null\<close> is
  \<^verbatim>\<open>null\<close> under its own key and leaves the other categories alone. A scrape function that
  never settles is the spec's timeout. The URL object is an association list in
  insertion order.
\<close>

definition categoryResult ::
  "(js_error + IProductInfo list option) option \<Rightarrow> IProductInfo list option" where
  "categoryResult settled =
     (case settled of
        None \<Rightarrow> None
      | Some (Inl e) \<Rightarrow> None
      | Some (Inr products) \<Rightarrow> products)"

text \<open>
  Modelled from the spec: the batch has one entry per caller key, in the caller's order,
  holding what that category's own scrape settled to.
\<close>

definition scrapeMultipleURLs ::
  "(string \<times> string) list \<Rightarrow> bool \<Rightarrow>
   (string \<Rightarrow> bool \<Rightarrow> (js_error + IProductInfo list option) option) \<Rightarrow>
   (string \<times> IProductInfo list option) list" where
  "scrapeMultipleURLs urls scrapeRecursively scrapeFn =
     map (\<lambda>(category, url). (category, categoryResult (scrapeFn url scrapeRecursively))) urls"

text \<open>The \<^verbatim>\<open>urls\<close> object of \<^verbatim>\<open>fredMeyerScraper\<close>.\<close>

definition fredMeyerUrls :: "(string \<times> string) list" where
  "fredMeyerUrls =
     [(''meat'', ''https://www.fredmeyer.com/pl/meat-seafood/18004''),
      (''produce'',
       ''https://www.fredmeyer.com/pl/fresh-fruits-vegetables/06?taxonomyId=06&fulfillment=all''),
      (''milk'', ''https://www.fredmeyer.com/pl/milk-plant-based-%20milk/02001''),
      (''cheese'', ''https://www.fredmeyer.com/pl/cheese/02002''),
      (''butter'', ''https://www.fredmeyer.com/pl/butter-margarine/02004''),
      (''eggs'', ''https://www.fredmeyer.com/pl/eggs-egg-substitutes/02003'')]"

text \<open>
  \<^verbatim>\<open>fredMeyerScraper()\<close>: \<open>site\<close> gives the page the browser opens for a URL;
  \<^verbatim>\<open>this.scrapeSite.bind(this)\<close> is \<open>scrapeSite\<close> on that page.
\<close>

definition fredMeyerScraper ::
  "process_env \<Rightarrow> 'c Extractors \<Rightarrow> (string \<Rightarrow> 'c page_env) \<Rightarrow>
   (string \<times> IProductInfo list option) list" where
  "fredMeyerScraper penv extractorObj site =
     scrapeMultipleURLs fredMeyerUrls False
       (\<lambda>url scrapeRecursively.
          map_option fst (scrapeSite penv extractorObj (site url) url scrapeRecursively))"

section \<open>Catalog reconciler\<close>

text \<open>
  Modelled from the spec: \<^verbatim>\<open>ProductProcessor.processScrapeResults\<close> and the catalog behind
  it (\<^verbatim>\<open>ProductModel\<close>), whose sources are not part of the scraper files; only the call in
  \<^verbatim>\<open>App.scrapeAllStores\<close> is. The spec's contract (3, 4.4): the batch is flattened, skipping
  \<^verbatim>\<open>null\<close> categories; a candidate missing a required field is rejected and logged; every
  other candidate is looked up by its identity key (store name, product name); an absent
  entry is inserted, a found one has its price, link and image updated, and nothing is
  written when they are the same already. An entry carries a durable identifier and a
  last-seen time beside the product's fields.
\<close>

text \<open>Modelled from the spec: the validation gate, all five fields defined and non-empty.\<close>

definition nonEmpty :: "string option \<Rightarrow> bool" where
  "nonEmpty v = (case v of None \<Rightarrow> False | Some s \<Rightarrow> s \<noteq> [])"

definition isComplete :: "IProductInfo \<Rightarrow> bool" where
  "isComplete r =
     (nonEmpty (productName r) \<and> nonEmpty (storeName r) \<and> nonEmpty (productPrice r) \<and>
      nonEmpty (productLink r) \<and> nonEmpty (productImage r))"

text \<open>Modelled from the spec: the identity key is the pair of store name and product name.\<close>

definition fieldText :: "string option \<Rightarrow> string" where
  "fieldText v = (case v of None \<Rightarrow> [] | Some s \<Rightarrow> s)"

definition identityKey :: "IProductInfo \<Rightarrow> string \<times> string" where
  "identityKey r = (fieldText (storeName r), fieldText (productName r))"

text \<open>
  Modelled from the spec: a catalog entry is stored under its identity key; beside the key
  it holds the durable identifier, the last-seen time and the three mutable fields.
\<close>

record CatalogEntry =
  entryId :: nat
  lastSeen :: nat
  entryPrice :: "string option"
  entryLink :: "string option"
  entryImage :: "string option"

type_synonym catalog = "string \<times> string \<Rightarrow> CatalogEntry option"

datatype catalog_write = Insert IProductInfo | Update IProductInfo

text \<open>
  The reconciler's view of one pass: the catalog, the next free identifier, the write
  calls made on the catalog and the rejected candidates that were logged.
\<close>

record reconciler_state =
  entries :: catalog
  nextId :: nat
  writes :: "catalog_write list"
  rejected :: "IProductInfo list"

text \<open>
  Modelled from the spec: one candidate. The gate comes first; a complete candidate is
  looked up by its key, inserted when absent, updated when found with other fields, and
  left alone when found with the same fields. \<open>now\<close> is the time of the pass.
\<close>

definition sameFields :: "CatalogEntry \<Rightarrow> IProductInfo \<Rightarrow> bool" where
  "sameFields e r =
     (entryPrice e = productPrice r \<and> entryLink e = productLink r \<and>
      entryImage e = productImage r)"

definition processCandidate :: "nat \<Rightarrow> reconciler_state \<Rightarrow> IProductInfo \<Rightarrow> reconciler_state"
  where
  "processCandidate now st r =
     (if \<not> isComplete r then st\<lparr>rejected := rejected st @ [r]\<rparr>
      else case entries st (identityKey r) of
             None \<Rightarrow>
               st\<lparr>entries := (entries st)(identityKey r \<mapsto>
                       \<lparr>entryId = nextId st, lastSeen = now, entryPrice = productPrice r,
                        entryLink = productLink r, entryImage = productImage r\<rparr>),
                  nextId := Suc (nextId st),
                  writes := writes st @ [Insert r]\<rparr>
           | Some e \<Rightarrow>
               if sameFields e r then st
               else st\<lparr>entries := (entries st)(identityKey r \<mapsto>
                            e\<lparr>lastSeen := now, entryPrice := productPrice r,
                              entryLink := productLink r, entryImage := productImage r\<rparr>),
                       writes := writes st @ [Update r]\<rparr>)"

text \<open>
  Modelled from the spec: the batch is flattened in category order, \<^verbatim>\<open>null\<close> categories
  skipped, and the candidates are processed one after the other.
\<close>

definition candidates :: "(string \<times> IProductInfo list option) list \<Rightarrow> IProductInfo list" where
  "candidates batch =
     concat (map (\<lambda>(category, products). case products of None \<Rightarrow> [] | Some ps \<Rightarrow> ps) batch)"

definition reconcile :: "nat \<Rightarrow> reconciler_state \<Rightarrow> IProductInfo list \<Rightarrow> reconciler_state" where
  "reconcile now st rs = foldl (processCandidate now) st rs"

definition processScrapeResults ::
  "nat \<Rightarrow> (string \<times> IProductInfo list option) list \<Rightarrow> reconciler_state \<Rightarrow> reconciler_state"
  where
  "processScrapeResults now batch st = reconcile now st (candidates batch)"

text \<open>
  A candidate is persisted in a catalog when the entry under its identity key holds its
  fields. A catalog is well formed when every entry is a complete record: the key and the
  three stored fields are non-empty.
\<close>

definition persistedIn :: "catalog \<Rightarrow> IProductInfo \<Rightarrow> bool" where
  "persistedIn cat r =
     (case (storeName r, productName r) of
        (Some s, Some n) \<Rightarrow>
          (case cat (s, n) of None \<Rightarrow> False | Some e \<Rightarrow> sameFields e r)
      | _ \<Rightarrow> False)"

definition catalog_ok :: "catalog \<Rightarrow> bool" where
  "catalog_ok cat =
     (\<forall>s n e. cat (s, n) = Some e \<longrightarrow>
        s \<noteq> [] \<and> n \<noteq> [] \<and> nonEmpty (entryPrice e) \<and> nonEmpty (entryLink e) \<and>
        nonEmpty (entryImage e))"

definition emptyState :: reconciler_state where
  "emptyState = \<lparr>entries = Map.empty, nextId = 0, writes = [], rejected = []\<rparr>"

section \<open>Example inputs\<close>

text \<open>
  Products: butter, eggs, and a record whose price is missing.
\<close>

definition butter299 :: IProductInfo where
  "butter299 =
     \<lparr>productName = Some ''Butter'', storeName = Some ''Fred Meyer'',
      productPrice = Some ''$2.99'', productLink = Some ''https://www.fredmeyer.com/p/1'',
      productImage = Some ''https://img/1.jpg''\<rparr>"

definition eggs :: IProductInfo where
  "eggs =
     \<lparr>productName = Some ''Eggs'', storeName = Some ''Fred Meyer'',
      productPrice = Some ''$4.19'', productLink = Some ''https://www.fredmeyer.com/p/2'',
      productImage = Some ''https://img/2.jpg''\<rparr>"

definition noPrice :: IProductInfo where
  "noPrice = eggs\<lparr>productName := Some ''Milk'', productPrice := None\<rparr>"

definition dairyBatch :: "(string \<times> IProductInfo list option) list" where
  "dairyBatch = [(''butter'', Some [butter299, noPrice]), (''milk'', None), (''eggs'', Some [eggs])]"

text \<open>A scrape function that throws on one URL and returns one product on any other.\<close>

definition throwsOnA :: "string \<Rightarrow> bool \<Rightarrow> (js_error + IProductInfo list option) option" where
  "throwsOnA url scrapeRecursively =
     (if url = ''urlA'' then Some (Inl NavigationError) else Some (Inr (Some [eggs])))"


text \<open>A page on which every selector misses: all five extractors return \<^verbatim>\<open>undefined\<close>.\<close>

definition missingEverything :: "nat Extractors" where
  "missingEverything =
     \<lparr>extractFromAria = (\<lambda>cell sel. None), extractProductImage = (\<lambda>cell sel. None),
      extractTextContent = (\<lambda>cell sel. None), extractFromValue = (\<lambda>cell sel. None),
      extractProductURL = (\<lambda>base cell sel. None)\<rparr>"

text \<open>
  Cells given as a pair of the price text and the price value; name, image and link are
  read off the pair as well.
\<close>

definition pairExtractors :: "(string \<times> string) Extractors" where
  "pairExtractors =
     \<lparr>extractFromAria = (\<lambda>cell sel. Some ''Butter''),
      extractProductImage = (\<lambda>cell sel. Some ''https://img/1.jpg''),
      extractTextContent = (\<lambda>cell sel. Some (fst cell)),
      extractFromValue = (\<lambda>cell sel. Some (snd cell)),
      extractProductURL = (\<lambda>base cell sel. Some (base @ ''/p/1''))\<rparr>"

text \<open>
  Pages for \<^verbatim>\<open>scrapeSite\<close>. On \<open>twoMorePages\<close> the load-more control is there twice and
  then gone, and every click loads three more cells. On \<open>clickRefused\<close> the control is
  always found but the click on it is rejected. On \<open>gridNeverAppears\<close> the wait for the
  grid times out; on \<open>gridHandleNull\<close> it resolves to \<^verbatim>\<open>null\<close>; on \<open>emptyGrid\<close> the grid
  is there and holds no cell.
\<close>

definition twoMorePages :: "nat page_env" where
  "twoMorePages =
     \<lparr>newPage = Resolved (), goto = Resolved (),
      waitForSelector = Resolved (Some (\<lambda>clicks. [0..<3 * Suc clicks])),
      eval_loadMore = (\<lambda>i. if i < 2 then Resolved True else Rejected SelectorNotFound),
      click_loadMore = (\<lambda>i. Resolved ())\<rparr>"

definition clickRefused :: "nat page_env" where
  "clickRefused =
     \<lparr>newPage = Resolved (), goto = Resolved (),
      waitForSelector = Resolved (Some (\<lambda>clicks. [0..<3])),
      eval_loadMore = (\<lambda>i. Resolved True),
      click_loadMore = (\<lambda>i. Rejected NotClickable)\<rparr>"

definition gridNeverAppears :: "nat page_env" where
  "gridNeverAppears =
     \<lparr>newPage = Resolved (), goto = Resolved (),
      waitForSelector = Rejected TimeoutError,
      eval_loadMore = (\<lambda>i. Rejected SelectorNotFound),
      click_loadMore = (\<lambda>i. Rejected SelectorNotFound)\<rparr>"

definition gridHandleNull :: "nat page_env" where
  "gridHandleNull = gridNeverAppears\<lparr>waitForSelector := Resolved None\<rparr>"

definition emptyGrid :: "nat page_env" where
  "emptyGrid = gridNeverAppears\<lparr>waitForSelector := Resolved (Some (\<lambda>clicks. []))\<rparr>"

text \<open>Environments: both delays unset, and both set to \<^verbatim>\<open>"0"\<close>.\<close>

definition noDelays :: process_env where
  "noDelays = \<lparr>CLICK_DELAY = None, SCRAPE_DELAY = None\<rparr>"

definition zeroDelays :: process_env where
  "zeroDelays = \<lparr>CLICK_DELAY = Some (units ''0''), SCRAPE_DELAY = Some (units ''0'')\<rparr>"

section \<open>Extraction: one record per cell\<close>

lemma scrapePage_loop_append:
  "scrapePage_loop ex cells acc = acc @ map (scrapeProduct ex) cells"
  by (induction cells arbitrary: acc) simp_all

lemma scrapePage_map: "scrapePage ex cells = map (scrapeProduct ex) cells"
  by (simp add: scrapePage_def scrapePage_loop_append)

text \<open>
  C7. \<^verbatim>\<open>scrapePage\<close> emits exactly one record for every cell the grid selector matched, in
  the cells' order, whatever the extractors return: a field whose extraction gave
  \<^verbatim>\<open>undefined\<close> is \<^verbatim>\<open>undefined\<close> in the emitted record, and the cell is not dropped.
\<close>

theorem scrapePage_one_record_per_cell:
  "length (scrapePage ex cells) = length cells \<and>
   scrapePage ex cells = map (scrapeProduct ex) cells \<and>
   productName (scrapeProduct ex cell) = extractFromAria ex cell ''.mb-4 > .kds-Link'' \<and>
   productImage (scrapeProduct ex cell) =
     extractProductImage ex cell ''.kds-Link > .h-full > .kds-Image-img'' \<and>
   productLink (scrapeProduct ex cell) =
     extractProductURL ex ''https://www.fredmeyer.com'' cell ''.mb-4 > .kds-Link''"
  by (simp add: scrapePage_map scrapeProduct_def Let_def)

theorem scrapePage_one_record_per_cell_witness:
  "length (scrapePage missingEverything [0, 1, 2]) = 3 \<and>
   productName (scrapeProduct missingEverything 0) = None \<and>
   productImage (scrapeProduct missingEverything 0) = None \<and>
   productLink (scrapeProduct missingEverything 0) = None"
  using scrapePage_one_record_per_cell [of missingEverything "[0, 1, 2]" 0]
  by (simp add: missingEverything_def)

text \<open>
  C10. Every record \<^verbatim>\<open>scrapePage\<close> emits has the store name \<^verbatim>\<open>"Fred Meyer"\<close>, whatever the
  cell holds: the field is a constant of the scraper, never read from the page, so it is
  never \<^verbatim>\<open>undefined\<close>.
\<close>

theorem scrapePage_storeName:
  "\<forall>r\<in>set (scrapePage ex cells). storeName r = Some ''Fred Meyer''"
  by (simp add: scrapePage_map scrapeProduct_def Let_def)

theorem scrapePage_storeName_witness:
  "scrapeProduct missingEverything 7 \<in> set (scrapePage missingEverything [7]) \<and>
   storeName (scrapeProduct missingEverything 7) = Some ''Fred Meyer''"
proof -
  have mem: "scrapeProduct missingEverything 7 \<in> set (scrapePage missingEverything [7])"
    by (simp add: scrapePage_def)
  with scrapePage_storeName [of missingEverything "[7]"] show ?thesis
    by blast
qed

section \<open>Extraction: the price\<close>

lemma slash_not_in_class: "\<not> isDigitOrDot CHR ''/''"
  by (simp add: isDigitOrDot_def)

lemma regex_gives_perUnitPrice:
  assumes "pricePerPoundRegex_test t"
  shows "perUnitPrice t"
proof (cases t)
  case Nil
  with assms show ?thesis by (simp add: pricePerPoundRegex_test_def)
next
  case (Cons c rest)
  with assms have c: "c = CHR ''$''" and tw: "takeWhile isDigitOrDot rest \<noteq> []"
    and dw: "dropWhile isDigitOrDot rest = ''/lb''"
    by (simp_all add: pricePerPoundRegex_test_def)
  have "rest = takeWhile isDigitOrDot rest @ dropWhile isDigitOrDot rest" by simp
  with dw have "rest = takeWhile isDigitOrDot rest @ ''/lb''" by simp
  moreover have "\<forall>c\<in>set (takeWhile isDigitOrDot rest). isDigitOrDot c"
    by (auto dest: set_takeWhileD)
  ultimately have "takeWhile isDigitOrDot rest \<noteq> [] \<and>
      (\<forall>c\<in>set (takeWhile isDigitOrDot rest). c \<in> set ''0123456789.'') \<and>
      t = ''$'' @ takeWhile isDigitOrDot rest @ ''/lb''"
    using c tw Cons unfolding isDigitOrDot_def by simp
  then show ?thesis unfolding perUnitPrice_def by blast
qed

lemma perUnitPrice_passes_regex:
  assumes "perUnitPrice t"
  shows "pricePerPoundRegex_test t"
proof -
  from assms obtain ds where ne: "ds \<noteq> []" and cls: "\<forall>c\<in>set ds. isDigitOrDot c"
    and t: "t = ''$'' @ ds @ ''/lb''"
    unfolding perUnitPrice_def isDigitOrDot_def by blast
  have "takeWhile isDigitOrDot (ds @ ''/lb'') = ds"
    using cls slash_not_in_class by (simp add: takeWhile_append2)
  moreover have "dropWhile isDigitOrDot (ds @ ''/lb'') = ''/lb''"
    using cls slash_not_in_class by (simp add: dropWhile_append2)
  ultimately show ?thesis using ne t by (simp add: pricePerPoundRegex_test_def)
qed

lemma regex_iff_perUnitPrice: "pricePerPoundRegex_test t \<longleftrightarrow> perUnitPrice t"
  using regex_gives_perUnitPrice perUnitPrice_passes_regex by blast

lemma undefined_is_no_price: "\<not> pricePerPoundRegex_test ''undefined''"
  by (simp add: pricePerPoundRegex_test_def)

lemma example_perUnitPrice: "perUnitPrice ''$2.99/lb''"
  by (rule regex_gives_perUnitPrice) (simp add: pricePerPoundRegex_test_def isDigitOrDot_def)

lemma example_not_perUnitPrice: "\<not> perUnitPrice ''2 for $5''"
  using perUnitPrice_passes_regex [of "''2 for $5''"]
  by (auto simp add: pricePerPoundRegex_test_def)

text \<open>
  C6. For every cell, the price of the emitted record is the cell's text content,
  unchanged, when that text is a per-unit price (a dollar sign, digits or dots, \<^verbatim>\<open>/lb\<close>);
  otherwise, also when the text is \<^verbatim>\<open>undefined\<close>, it is a dollar sign followed by what the
  value-based fallback extraction returned.
\<close>

theorem scrapePage_price:
  "map productPrice (scrapePage ex cells) =
     map (\<lambda>cell.
            case extractTextContent ex cell ''div > * >.kds-Text--s'' of
              Some t \<Rightarrow>
                if perUnitPrice t then Some t
                else Some (''$'' @
                       js_to_string (extractFromValue ex cell ''.kds-Price--alternate''))
            | None \<Rightarrow>
                Some (''$'' @ js_to_string (extractFromValue ex cell ''.kds-Price--alternate'')))
         cells"
  by (simp add: scrapePage_map scrapeProduct_def Let_def regex_iff_perUnitPrice [symmetric]
      js_to_string_def undefined_is_no_price split: option.split)

theorem scrapePage_price_witness:
  "map productPrice
     (scrapePage pairExtractors [(''$2.99/lb'', ''7.00''), (''2 for $5'', ''2.99'')]) =
   [Some ''$2.99/lb'', Some ''$2.99'']"
  using scrapePage_price
      [of pairExtractors "[(''$2.99/lb'', ''7.00''), (''2 for $5'', ''2.99'')]"]
    example_perUnitPrice example_not_perUnitPrice
  by (simp add: js_to_string_def pairExtractors_def)

section \<open>Delays\<close>

lemmas parseInt_eval =
  parseInt_def units_def isStrWhiteSpace_def radixDigit_def toNumber_def roundTiesToEven_def

lemma parseInt_undefined: "parseInt (units ''undefined'') = NaN"
  by (simp add: parseInt_eval)

lemma parseInt_zero: "parseInt (units ''0'') = Number 0"
  by (simp add: parseInt_eval)

lemma parseInt_examples:
  "parseInt (units ''250'') = Number 250"
  "parseInt (units ''soon'') = NaN"
  "parseInt (units '' -12px'') = Number (- 12)"
  "parseInt (units ''0x1F'') = Number 31"
  "parseInt (0xA0 # units ''42'') = Number 42"
  "parseInt (0x2003 # 0xFEFF # units ''42'') = Number 42"
  "parseInt (units ''9007199254740993'') = Number 9007199254740992"
  "parseInt (units ''9007199254740995'') = Number 9007199254740996"
  by (simp_all add: parseInt_eval)

lemma delays_unset: "clickDelay noDelays = Number 500" "scrapeDelay noDelays = Number 3000"
  by (simp_all add: clickDelay_def scrapeDelay_def noDelays_def envToString_def orDefault_def
      parseInt_undefined)

lemma delays_zero: "clickDelay zeroDelays = Number 500" "scrapeDelay zeroDelays = Number 3000"
  by (simp_all add: clickDelay_def scrapeDelay_def zeroDelays_def envToString_def orDefault_def
      parseInt_zero)

lemma delays_set:
  "clickDelay \<lparr>CLICK_DELAY = Some (units ''250''), SCRAPE_DELAY = Some (units ''soon'')\<rparr> =
     Number 250"
  "scrapeDelay \<lparr>CLICK_DELAY = Some (units ''250''), SCRAPE_DELAY = Some (units ''soon'')\<rparr> =
     Number 3000"
  by (simp_all add: clickDelay_def scrapeDelay_def envToString_def orDefault_def
      parseInt_examples)

section \<open>The pagination loop\<close>

lemma loop_probe_rejected:
  "eval_loadMore page i = Rejected e \<Longrightarrow>
   loadMoreLoop penv page i log = Some (i, log @ lastIteration penv page i)"
  by (subst loadMoreLoop.simps) (simp add: lastIteration_def)

lemma loop_click_rejected:
  "eval_loadMore page i = Resolved b \<Longrightarrow> click_loadMore page i = Rejected e \<Longrightarrow>
   loadMoreLoop penv page i log = Some (i, log @ lastIteration penv page i)"
  by (subst loadMoreLoop.simps) (simp add: lastIteration_def loopIteration_def)

lemma loop_clicked:
  "eval_loadMore page i = Resolved b \<Longrightarrow> click_loadMore page i = Resolved u \<Longrightarrow>
   loadMoreLoop penv page i log = loadMoreLoop penv page (Suc i) (log @ loopIteration penv)"
  by (subst loadMoreLoop.simps) (simp add: loopIteration_def)

lemma failed_or_through: "failedAt page j \<longleftrightarrow> \<not> gotThrough page j"
  unfolding failedAt_def gotThrough_def
  by (cases "eval_loadMore page j"; cases "click_loadMore page j") auto

lemma loop_runs_to_first_failure:
  assumes "\<forall>j. i \<le> j \<and> j < i + n \<longrightarrow> gotThrough page j"
    and "failedAt page (i + n)"
  shows "loadMoreLoop penv page i log =
           Some (i + n, log @ concat (replicate n (loopIteration penv)) @
                          lastIteration penv page (i + n))"
  using assms
proof (induction n arbitrary: i log)
  case 0
  then have f: "failedAt page i" by simp
  show ?case
  proof (cases "eval_loadMore page i")
    case (Rejected e)
    then show ?thesis using loop_probe_rejected by simp
  next
    case (Resolved b)
    with f obtain e where "click_loadMore page i = Rejected e"
      unfolding failedAt_def by auto
    with Resolved show ?thesis using loop_click_rejected by simp
  qed
next
  case (Suc n)
  from Suc.prems(1) have "gotThrough page i" by simp
  then obtain b u where "eval_loadMore page i = Resolved b" "click_loadMore page i = Resolved u"
    unfolding gotThrough_def by blast
  then have step: "loadMoreLoop penv page i log =
      loadMoreLoop penv page (Suc i) (log @ loopIteration penv)"
    by (rule loop_clicked)
  have "\<forall>j. Suc i \<le> j \<and> j < Suc i + n \<longrightarrow> gotThrough page j"
    using Suc.prems(1) by simp
  moreover have "failedAt page (Suc i + n)" using Suc.prems(2) by simp
  ultimately have "loadMoreLoop penv page (Suc i) (log @ loopIteration penv) =
      Some (Suc i + n, (log @ loopIteration penv) @ concat (replicate n (loopIteration penv)) @
                          lastIteration penv page (Suc i + n))"
    by (rule Suc.IH)
  with step show ?case by simp
qed

lemma loop_only_ends_by_failure:
  assumes "loadMoreLoop penv page i log = Some y"
  shows "i \<le> fst y \<and> (\<forall>j. i \<le> j \<and> j < fst y \<longrightarrow> gotThrough page j) \<and>
         failedAt page (fst y)"
  using assms
proof (induct penv page i log y rule: loadMoreLoop.raw_induct [rotated 1, consumes 1])
  case (1 f penv page i log y)
  show ?case
  proof (cases "eval_loadMore page i")
    case (Rejected e)
    with 1(2) show ?thesis by (auto simp: failedAt_def)
  next
    case ev: (Resolved b)
    show ?thesis
    proof (cases "click_loadMore page i")
      case (Rejected e)
      with ev 1(2) show ?thesis by (auto simp: failedAt_def)
    next
      case (Resolved u)
      with ev 1(2) have "f penv page (Suc i) (log @ loopIteration penv) = Some y"
        by (simp add: loopIteration_def)
      then have ih: "Suc i \<le> fst y \<and> (\<forall>j. Suc i \<le> j \<and> j < fst y \<longrightarrow> gotThrough page j) \<and>
          failedAt page (fst y)"
        by (rule 1(1))
      have here: "gotThrough page i" using ev Resolved unfolding gotThrough_def by blast
      have "gotThrough page j" if "i \<le> j \<and> j < fst y" for j
      proof (cases "j = i")
        case True
        with here show ?thesis by simp
      next
        case False
        with that have "Suc i \<le> j \<and> j < fst y" by simp
        with ih show ?thesis by blast
      qed
      with ih show ?thesis by simp
    qed
  qed
qed

lemma loop_bounded:
  assumes "failedAt page N"
  shows "\<exists>k log'. loadMoreLoop penv page 0 log = Some (k, log') \<and> k \<le> N"
proof -
  define n where "n = (LEAST j. failedAt page j)"
  have fn: "failedAt page n" unfolding n_def using assms by (rule LeastI)
  have le: "n \<le> N" unfolding n_def using assms by (rule Least_le)
  have through: "gotThrough page j" if "j < n" for j
  proof -
    from that have "\<not> failedAt page j" unfolding n_def by (rule not_less_Least)
    then show ?thesis using failed_or_through by blast
  qed
  have a: "\<forall>j. 0 \<le> j \<and> j < 0 + n \<longrightarrow> gotThrough page j"
    using through by simp
  have b: "failedAt page (0 + n)" using fn by simp
  have "loadMoreLoop penv page 0 log =
      Some (0 + n, log @ concat (replicate n (loopIteration penv)) @
                     lastIteration penv page (0 + n))"
    using a b by (rule loop_runs_to_first_failure)
  then have "loadMoreLoop penv page 0 log =
      Some (n, log @ concat (replicate n (loopIteration penv)) @ lastIteration penv page n) \<and>
      n \<le> N"
    using le by simp
  then show ?thesis by (intro exI)
qed

text \<open>
  The loop in general. It ends at the first iteration whose probe or click is rejected,
  with exactly the iterations before it gone through; when the probe is rejected at
  iteration \<open>N\<close> the loop has ended by then, after at most \<open>N + 1\<close> iterations; and it ends
  in no other way than through the \<^verbatim>\<open>catch\<close>.
\<close>

lemma loadMoreLoop_ends_at_first_failure:
  "((\<forall>j<n. gotThrough page j) \<and> failedAt page n \<longrightarrow>
      loadMoreLoop penv page 0 log =
        Some (n, log @ concat (replicate n (loopIteration penv)) @ lastIteration penv page n)) \<and>
   ((\<exists>e. eval_loadMore page N = Rejected e) \<longrightarrow>
      (\<exists>k log'. loadMoreLoop penv page 0 log = Some (k, log') \<and> k \<le> N)) \<and>
   (loadMoreLoop penv page 0 log = Some (k, log'') \<longrightarrow>
      (\<forall>j<k. gotThrough page j) \<and> failedAt page k)"
proof (intro conjI impI)
  assume "(\<forall>j<n. gotThrough page j) \<and> failedAt page n"
  then show "loadMoreLoop penv page 0 log =
        Some (n, log @ concat (replicate n (loopIteration penv)) @ lastIteration penv page n)"
    using loop_runs_to_first_failure [of 0 n page penv log] by simp
next
  assume "\<exists>e. eval_loadMore page N = Rejected e"
  then have "failedAt page N" unfolding failedAt_def by blast
  then show "\<exists>k log'. loadMoreLoop penv page 0 log = Some (k, log') \<and> k \<le> N"
    by (rule loop_bounded)
next
  assume "loadMoreLoop penv page 0 log = Some (k, log'')"
  from loop_only_ends_by_failure [OF this]
  show "\<forall>j<k. gotThrough page j" by simp
next
  assume "loadMoreLoop penv page 0 log = Some (k, log'')"
  from loop_only_ends_by_failure [OF this]
  show "failedAt page k" by simp
qed

lemma loadMoreLoop_twoMorePages:
  "loadMoreLoop noDelays twoMorePages 0 [] =
     Some (2, [SleepBeforeOperation (Number 500), Eval loadMoreSelector, Click loadMoreSelector,
               SleepBeforeOperation (Number 500), Eval loadMoreSelector, Click loadMoreSelector,
               SleepBeforeOperation (Number 500), Eval loadMoreSelector])"
proof -
  have g0: "gotThrough twoMorePages 0" and g1: "gotThrough twoMorePages 1"
    by (auto simp add: gotThrough_def twoMorePages_def)
  have e2: "eval_loadMore twoMorePages 2 = Rejected SelectorNotFound"
    by (simp add: twoMorePages_def)
  then have f: "failedAt twoMorePages 2"
    by (simp add: failedAt_def)
  have g: "\<forall>j<2. gotThrough twoMorePages j"
    using g0 g1 by (auto simp add: less_2_cases_iff)
  have rep: "concat (replicate 2 (loopIteration noDelays)) =
      [SleepBeforeOperation (Number 500), Eval loadMoreSelector, Click loadMoreSelector,
       SleepBeforeOperation (Number 500), Eval loadMoreSelector, Click loadMoreSelector]"
    by (simp add: numeral_2_eq_2 loopIteration_def delays_unset)
  have last: "lastIteration noDelays twoMorePages 2 =
      [SleepBeforeOperation (Number 500), Eval loadMoreSelector]"
    by (simp add: lastIteration_def e2 delays_unset)
  from g f loadMoreLoop_ends_at_first_failure [of 2 twoMorePages noDelays "[]" 2 0 "[]"]
  have "loadMoreLoop noDelays twoMorePages 0 [] =
      Some (2, [] @ concat (replicate 2 (loopIteration noDelays)) @
                 lastIteration noDelays twoMorePages 2)"
    by blast
  then show ?thesis
    by (simp only: rep last append_Nil append_Cons)
qed

section \<open>Recursive scraping\<close>

text \<open>
  With the flag on and the grid found, \<^verbatim>\<open>scrapeSite\<close> is the pagination loop followed by
  the settle delay and one extraction of the grid as the clicks left it; it returns
  exactly when the loop ends.
\<close>

lemma scrapeSite_recursive:
  assumes "newPage page = Resolved a" and "goto page = Resolved b"
    and "waitForSelector page = Resolved (Some grid)"
  shows "scrapeSite penv ex page url True =
     (case loadMoreLoop penv page 0 [NewPage, Goto url, WaitForSelector ''.AutoGrid''] of
        None \<Rightarrow> None
      | Some (clicks, log') \<Rightarrow>
          Some (Inr (Some (scrapePage ex (grid clicks))),
                log' @ [SleepBeforeOperation (scrapeDelay penv), ScrapePage clicks]))"
  using assms by (simp add: scrapeSite_def)

lemma scrapeSite_recursive_returns:
  assumes "newPage page = Resolved a" and "goto page = Resolved b"
    and "waitForSelector page = Resolved (Some grid)"
    and "\<exists>e. eval_loadMore page N = Rejected e"
  shows "\<exists>k log. scrapeSite penv ex page url True =
           Some (Inr (Some (scrapePage ex (grid k))), log) \<and> k \<le> N"
proof -
  from assms(4) loadMoreLoop_ends_at_first_failure
    [of 0 page penv "[NewPage, Goto url, WaitForSelector ''.AutoGrid'']" N 0 "[]"]
  obtain k log' where
    l: "loadMoreLoop penv page 0 [NewPage, Goto url, WaitForSelector ''.AutoGrid''] =
          Some (k, log')" and k: "k \<le> N"
    by blast
  from scrapeSite_recursive [OF assms(1-3), of penv ex url] l
  have "scrapeSite penv ex page url True =
      Some (Inr (Some (scrapePage ex (grid k))),
            log' @ [SleepBeforeOperation (scrapeDelay penv), ScrapePage k])"
    by simp
  with k show ?thesis by blast
qed

text \<open>
  C5. On a page whose load-more control is found and whose click is rejected, the probe of
  the first iteration resolves and the click is rejected inside the same \<^verbatim>\<open>try\<close>: the
  \<^verbatim>\<open>catch\<close> clears the flag and the loop ends after one iteration, with no probe having
  failed. \<^verbatim>\<open>scrapeSite\<close> goes on to the settle delay and returns the cells of the first
  page as if pagination were complete, where the claim has the probe's failure as the only
  way out of the loop.
\<close>

theorem click_failure_ends_pagination:
  "eval_loadMore clickRefused 0 = Resolved True \<and>
   click_loadMore clickRefused 0 = Rejected NotClickable \<and>
   loadMoreLoop noDelays clickRefused 0 log =
     Some (0, log @ [SleepBeforeOperation (Number 500), Eval loadMoreSelector,
                     Click loadMoreSelector]) \<and>
   scrapeSite noDelays ex clickRefused url True =
     Some (Inr (Some (scrapePage ex [0..<3])),
           [NewPage, Goto url, WaitForSelector ''.AutoGrid'',
            SleepBeforeOperation (Number 500), Eval loadMoreSelector, Click loadMoreSelector,
            SleepBeforeOperation (Number 3000), ScrapePage 0])"
proof -
  have ev: "eval_loadMore clickRefused 0 = Resolved True"
    and cl: "click_loadMore clickRefused 0 = Rejected NotClickable"
    and np: "newPage clickRefused = Resolved ()" and gt: "goto clickRefused = Resolved ()"
    and ws: "waitForSelector clickRefused = Resolved (Some (\<lambda>clicks. [0..<3]))"
    by (simp_all add: clickRefused_def)
  have loop: "loadMoreLoop noDelays clickRefused 0 l =
     Some (0, l @ [SleepBeforeOperation (Number 500), Eval loadMoreSelector,
                   Click loadMoreSelector])" for l
    using loop_click_rejected [OF ev cl, of noDelays l]
    by (simp add: lastIteration_def loopIteration_def ev delays_unset)
  have site: "scrapeSite noDelays ex clickRefused url True =
     Some (Inr (Some (scrapePage ex [0..<3])),
           [NewPage, Goto url, WaitForSelector ''.AutoGrid'',
            SleepBeforeOperation (Number 500), Eval loadMoreSelector, Click loadMoreSelector,
            SleepBeforeOperation (Number 3000), ScrapePage 0])"
    using scrapeSite_recursive [OF np gt ws, of noDelays ex url]
    by (simp add: loop delays_unset)
  from ev cl loop site show ?thesis by (intro conjI)
qed

text \<open>
  C8. With \<^verbatim>\<open>CLICK_DELAY\<close> and \<^verbatim>\<open>SCRAPE_DELAY\<close> set to \<^verbatim>\<open>"0"\<close>, \<^verbatim>\<open>parseInt\<close> reads the integer 0,
  which \<^verbatim>\<open>||\<close> takes for absent: \<^verbatim>\<open>scrapeSite\<close> sleeps 500 ms before the probe and 3000 ms
  before the extraction, where the claim has the set value used. Unset variables and a
  string without a number give the defaults, and a non-zero integer is used, as the claim
  says.
\<close>

theorem zero_delay_falls_back:
  "parseInt (units ''0'') = Number 0 \<and>
   clickDelay zeroDelays = Number 500 \<and> scrapeDelay zeroDelays = Number 3000 \<and>
   scrapeSite zeroDelays ex emptyGrid url True =
     Some (Inr (Some []),
           [NewPage, Goto url, WaitForSelector ''.AutoGrid'',
            SleepBeforeOperation (Number 500), Eval loadMoreSelector,
            SleepBeforeOperation (Number 3000), ScrapePage 0]) \<and>
   clickDelay noDelays = Number 500 \<and> scrapeDelay noDelays = Number 3000 \<and>
   clickDelay \<lparr>CLICK_DELAY = Some (units ''250''), SCRAPE_DELAY = Some (units ''soon'')\<rparr> =
     Number 250 \<and>
   scrapeDelay \<lparr>CLICK_DELAY = Some (units ''250''), SCRAPE_DELAY = Some (units ''soon'')\<rparr> =
     Number 3000"
proof -
  have ev: "eval_loadMore emptyGrid 0 = Rejected SelectorNotFound"
    and np: "newPage emptyGrid = Resolved ()" and gt: "goto emptyGrid = Resolved ()"
    and ws: "waitForSelector emptyGrid = Resolved (Some (\<lambda>clicks. []))"
    by (simp_all add: emptyGrid_def gridNeverAppears_def)
  have loop: "loadMoreLoop zeroDelays emptyGrid 0 l =
     Some (0, l @ [SleepBeforeOperation (Number 500), Eval loadMoreSelector])" for l
    using loop_probe_rejected [OF ev, of zeroDelays l]
    by (simp add: lastIteration_def ev delays_zero)
  have site: "scrapeSite zeroDelays ex emptyGrid url True =
     Some (Inr (Some []),
           [NewPage, Goto url, WaitForSelector ''.AutoGrid'',
            SleepBeforeOperation (Number 500), Eval loadMoreSelector,
            SleepBeforeOperation (Number 3000), ScrapePage 0])"
    using scrapeSite_recursive [OF np gt ws, of zeroDelays ex url]
    by (simp add: loop delays_zero scrapePage_def)
  from parseInt_zero delays_zero site delays_unset delays_set show ?thesis by (intro conjI)
qed

section \<open>The reconciler\<close>

lemma reconcile_Nil: "reconcile now st [] = st"
  by (simp add: reconcile_def)

lemma reconcile_Cons: "reconcile now st (r # rs) = reconcile now (processCandidate now st r) rs"
  by (simp add: reconcile_def)

lemma reconcile_append:
  "reconcile now st (rs @ rs') = reconcile now (reconcile now st rs) rs'"
  by (simp add: reconcile_def)

lemma reconcile_snoc:
  "reconcile now st (rs @ [r]) = processCandidate now (reconcile now st rs) r"
  by (simp add: reconcile_def)

lemma rejected_candidate:
  "\<not> isComplete r \<Longrightarrow> processCandidate now st r = st\<lparr>rejected := rejected st @ [r]\<rparr>"
  by (simp add: processCandidate_def)

lemma stored_candidate:
  assumes "isComplete r"
  shows "\<exists>e. entries (processCandidate now st r) (identityKey r) = Some e \<and> sameFields e r"
  using assms by (auto simp add: processCandidate_def sameFields_def split: option.splits)

lemma other_keys_kept:
  "k \<noteq> identityKey r \<Longrightarrow> entries (processCandidate now st r) k = entries st k"
  by (simp add: processCandidate_def split: option.splits)

lemma rejected_kept: "rejected (processCandidate now st r) = rejected st @ (if isComplete r then [] else [r])"
  by (simp add: processCandidate_def split: option.splits)

lemma complete_key:
  assumes "isComplete r"
  obtains s n where "storeName r = Some s" "productName r = Some n" "s \<noteq> []" "n \<noteq> []"
    "identityKey r = (s, n)"
  using assms
  by (cases "storeName r"; cases "productName r")
     (auto simp add: isComplete_def nonEmpty_def identityKey_def fieldText_def)

lemma catalog_ok_step:
  assumes "catalog_ok (entries st)"
  shows "catalog_ok (entries (processCandidate now st r))"
proof (cases "isComplete r")
  case False
  with assms show ?thesis by (simp add: rejected_candidate)
next
  case True
  then obtain s n where k: "identityKey r = (s, n)" "s \<noteq> []" "n \<noteq> []"
    by (rule complete_key)
  from True have f: "nonEmpty (productPrice r)" "nonEmpty (productLink r)" "nonEmpty (productImage r)"
    by (simp_all add: isComplete_def)
  show ?thesis
    using assms True k f
    unfolding catalog_ok_def processCandidate_def
    by (auto split: option.splits if_splits)
qed

lemma catalog_ok_reconcile:
  "catalog_ok (entries st) \<Longrightarrow> catalog_ok (entries (reconcile now st rs))"
  by (induction rs arbitrary: st) (simp_all add: reconcile_Nil reconcile_Cons catalog_ok_step)

lemma persisted_after_step:
  assumes "isComplete r"
  shows "persistedIn (entries (processCandidate now st r)) r"
proof -
  from assms obtain s n where k: "storeName r = Some s" "productName r = Some n"
    "identityKey r = (s, n)"
    by (rule complete_key)
  from stored_candidate [OF assms, of now st] k show ?thesis
    by (auto simp add: persistedIn_def)
qed

lemma not_persisted_if_incomplete:
  assumes "catalog_ok cat" and "\<not> isComplete r"
  shows "\<not> persistedIn cat r"
proof
  assume p: "persistedIn cat r"
  then obtain s n e where k: "storeName r = Some s" "productName r = Some n"
    and e: "cat (s, n) = Some e" "sameFields e r"
    by (auto simp add: persistedIn_def split: option.splits)
  from assms(1) e(1) have "s \<noteq> [] \<and> n \<noteq> [] \<and> nonEmpty (entryPrice e) \<and>
      nonEmpty (entryLink e) \<and> nonEmpty (entryImage e)"
    unfolding catalog_ok_def by blast
  with k e(2) have "isComplete r"
    by (simp add: isComplete_def sameFields_def nonEmpty_def)
  with assms(2) show False by contradiction
qed

lemma rejected_reconcile:
  "rejected (reconcile now st rs) = rejected st @ filter (\<lambda>c. \<not> isComplete c) rs"
  by (induction rs arbitrary: st) (simp_all add: reconcile_Nil reconcile_Cons rejected_kept)

lemma step_cong:
  assumes "entries st = entries st'" and "nextId st = nextId st'" and "writes st = writes st'"
  shows "entries (processCandidate now st r) = entries (processCandidate now st' r) \<and>
         nextId (processCandidate now st r) = nextId (processCandidate now st' r) \<and>
         writes (processCandidate now st r) = writes (processCandidate now st' r)"
  using assms by (simp add: processCandidate_def split: option.splits)

lemma reconcile_cong:
  assumes "entries st = entries st'" and "nextId st = nextId st'" and "writes st = writes st'"
  shows "entries (reconcile now st rs) = entries (reconcile now st' rs) \<and>
         nextId (reconcile now st rs) = nextId (reconcile now st' rs) \<and>
         writes (reconcile now st rs) = writes (reconcile now st' rs)"
  using assms
proof (induction rs arbitrary: st st')
  case Nil
  then show ?case by (simp add: reconcile_Nil)
next
  case (Cons r rs)
  from step_cong [OF Cons.prems, of now r]
  show ?case unfolding reconcile_Cons by (intro Cons.IH) simp_all
qed

lemma reconcile_skips_incomplete:
  "entries (reconcile now st rs) = entries (reconcile now st (filter isComplete rs)) \<and>
   nextId (reconcile now st rs) = nextId (reconcile now st (filter isComplete rs)) \<and>
   writes (reconcile now st rs) = writes (reconcile now st (filter isComplete rs))"
proof (induction rs arbitrary: st)
  case Nil
  show ?case by simp
next
  case (Cons r rs)
  show ?case
  proof (cases "isComplete r")
    case True
    then show ?thesis using Cons [of "processCandidate now st r"] by (simp add: reconcile_Cons)
  next
    case False
    have "entries (processCandidate now st r) = entries st \<and>
          nextId (processCandidate now st r) = nextId st \<and>
          writes (processCandidate now st r) = writes st"
      using False by (simp add: rejected_candidate)
    then have "entries (reconcile now (processCandidate now st r) rs) = entries (reconcile now st rs) \<and>
          nextId (reconcile now (processCandidate now st r) rs) = nextId (reconcile now st rs) \<and>
          writes (reconcile now (processCandidate now st r) rs) = writes (reconcile now st rs)"
      by (intro reconcile_cong) simp_all
    with False Cons [of st] show ?thesis by (simp add: reconcile_Cons)
  qed
qed

lemma key_kept_step:
  "entries st k \<noteq> None \<Longrightarrow> entries (processCandidate now st r) k \<noteq> None"
  by (simp add: processCandidate_def split: option.splits)

lemma key_kept:
  "entries st k \<noteq> None \<Longrightarrow> entries (reconcile now st rs) k \<noteq> None"
proof (induction rs arbitrary: st)
  case Nil
  then show ?case by (simp add: reconcile_Nil)
next
  case (Cons r rs)
  from Cons.prems have "entries (processCandidate now st r) k \<noteq> None"
    by (rule key_kept_step)
  then have "entries (reconcile now (processCandidate now st r) rs) k \<noteq> None"
    by (rule Cons.IH)
  then show ?case by (simp add: reconcile_Cons)
qed

lemma key_after_batch:
  assumes "isComplete r"
  shows "entries (reconcile now st (pre @ r # post)) (identityKey r) \<noteq> None"
proof -
  from stored_candidate [OF assms, of now "reconcile now st pre"]
  have "entries (reconcile now st (pre @ [r])) (identityKey r) \<noteq> None"
    by (auto simp add: reconcile_snoc)
  then have "entries (reconcile now (reconcile now st (pre @ [r])) post) (identityKey r) \<noteq> None"
    by (rule key_kept)
  then show ?thesis using reconcile_append [of now st "pre @ [r]" post] by simp
qed

lemma example_keys:
  "isComplete butter299" "isComplete eggs" "\<not> isComplete noPrice"
  "identityKey butter299 = (''Fred Meyer'', ''Butter'')"
  "identityKey eggs = (''Fred Meyer'', ''Eggs'')"
  by (simp_all add: isComplete_def nonEmpty_def identityKey_def fieldText_def
      butter299_def eggs_def noPrice_def)

lemma writes_candidate:
  "isComplete r \<Longrightarrow>
   writes (processCandidate now st r) =
     writes st @ (case entries st (identityKey r) of
                    None \<Rightarrow> [Insert r]
                  | Some e \<Rightarrow> if sameFields e r then [] else [Update r])"
  by (simp add: processCandidate_def split: option.splits)

text \<open>
  C1. With a well-formed catalog, a candidate of the batch is persisted by its step of the
  reconciliation exactly when all five of its fields are defined and non-empty. A
  candidate missing a field leaves the catalog and the write calls as they were and is
  logged as rejected; processing goes on with the rest of the batch, the log holds exactly
  the incomplete candidates, and the catalog and the writes are those of the complete
  candidates alone. A complete candidate's key is still in the catalog when the batch is
  done.
\<close>

theorem validation_gate:
  assumes "catalog_ok (entries st)" and "candidates batch = pre @ r # post"
  shows "(persistedIn (entries (reconcile now st (pre @ [r]))) r \<longleftrightarrow> isComplete r) \<and>
         (\<not> isComplete r \<longrightarrow>
            entries (reconcile now st (pre @ [r])) = entries (reconcile now st pre) \<and>
            writes (reconcile now st (pre @ [r])) = writes (reconcile now st pre) \<and>
            rejected (reconcile now st (pre @ [r])) = rejected (reconcile now st pre) @ [r]) \<and>
         processScrapeResults now batch st = reconcile now (reconcile now st (pre @ [r])) post \<and>
         (isComplete r \<longrightarrow> entries (processScrapeResults now batch st) (identityKey r) \<noteq> None) \<and>
         rejected (processScrapeResults now batch st) =
           rejected st @ filter (\<lambda>c. \<not> isComplete c) (candidates batch) \<and>
         entries (processScrapeResults now batch st) =
           entries (reconcile now st (filter isComplete (candidates batch))) \<and>
         writes (processScrapeResults now batch st) =
           writes (reconcile now st (filter isComplete (candidates batch)))"
proof -
  let ?mid = "reconcile now st pre"
  have ok: "catalog_ok (entries ?mid)" using assms(1) by (rule catalog_ok_reconcile)
  have one: "persistedIn (entries (reconcile now st (pre @ [r]))) r \<longleftrightarrow> isComplete r"
  proof (cases "isComplete r")
    case True
    then show ?thesis using persisted_after_step by (simp add: reconcile_snoc)
  next
    case False
    then have "entries (reconcile now st (pre @ [r])) = entries ?mid"
      by (simp add: reconcile_snoc rejected_candidate)
    with ok False show ?thesis using not_persisted_if_incomplete by simp
  qed
  have two: "\<not> isComplete r \<longrightarrow>
            entries (reconcile now st (pre @ [r])) = entries ?mid \<and>
            writes (reconcile now st (pre @ [r])) = writes ?mid \<and>
            rejected (reconcile now st (pre @ [r])) = rejected ?mid @ [r]"
    by (simp add: reconcile_snoc rejected_candidate)
  have three: "processScrapeResults now batch st =
      reconcile now (reconcile now st (pre @ [r])) post"
    using assms(2) reconcile_append [of now st "pre @ [r]" post]
    by (simp add: processScrapeResults_def)
  have four: "rejected (processScrapeResults now batch st) =
           rejected st @ filter (\<lambda>c. \<not> isComplete c) (candidates batch)"
    by (simp add: processScrapeResults_def rejected_reconcile)
  have five: "entries (processScrapeResults now batch st) =
           entries (reconcile now st (filter isComplete (candidates batch))) \<and>
         writes (processScrapeResults now batch st) =
           writes (reconcile now st (filter isComplete (candidates batch)))"
    using reconcile_skips_incomplete [of now st "candidates batch"]
    by (simp add: processScrapeResults_def)
  have six: "isComplete r \<longrightarrow>
      entries (processScrapeResults now batch st) (identityKey r) \<noteq> None"
    using key_after_batch [of r now st pre post] assms(2)
    by (simp add: processScrapeResults_def)
  from one two three four five six show ?thesis by blast
qed

theorem validation_gate_witness:
  "catalog_ok (entries emptyState) \<and> candidates dairyBatch = [butter299] @ noPrice # [eggs] \<and>
   \<not> isComplete noPrice \<and>
   \<not> persistedIn (entries (reconcile 1 emptyState ([butter299] @ [noPrice]))) noPrice \<and>
   rejected (processScrapeResults 1 dairyBatch emptyState) = [noPrice] \<and>
   writes (processScrapeResults 1 dairyBatch emptyState) = [Insert butter299, Insert eggs]"
proof -
  have ok: "catalog_ok (entries emptyState)"
    by (simp add: catalog_ok_def emptyState_def)
  have c: "candidates dairyBatch = [butter299] @ noPrice # [eggs]"
    by (simp add: candidates_def dairyBatch_def)
  note gate = validation_gate [OF ok c, of 1]
  from gate have "persistedIn (entries (reconcile 1 emptyState ([butter299] @ [noPrice]))) noPrice
      \<longleftrightarrow> isComplete noPrice"
    by (rule conjunct1)
  then have p: "\<not> persistedIn (entries (reconcile 1 emptyState ([butter299] @ [noPrice]))) noPrice"
    using example_keys(3) by simp
  have f: "filter (\<lambda>c. \<not> isComplete c) ([butter299] @ noPrice # [eggs]) = [noPrice]"
    and g: "filter isComplete ([butter299] @ noPrice # [eggs]) = [butter299, eggs]"
    by (simp_all add: example_keys)
  from gate have "rejected (processScrapeResults 1 dairyBatch emptyState) =
      rejected emptyState @ filter (\<lambda>c. \<not> isComplete c) (candidates dairyBatch)"
    by (elim conjE)
  then have r: "rejected (processScrapeResults 1 dairyBatch emptyState) = [noPrice]"
    unfolding c f by (simp add: emptyState_def)
  from gate have "writes (processScrapeResults 1 dairyBatch emptyState) =
      writes (reconcile 1 emptyState (filter isComplete (candidates dairyBatch)))"
    by (elim conjE)
  then have "writes (processScrapeResults 1 dairyBatch emptyState) =
      writes (reconcile 1 emptyState [butter299, eggs])"
    unfolding c g .
  moreover have "writes (reconcile 1 emptyState [butter299, eggs]) = [Insert butter299, Insert eggs]"
  proof -
    have "writes (processCandidate 1 emptyState butter299) = [Insert butter299]"
      by (simp add: writes_candidate example_keys emptyState_def)
    moreover have "entries (processCandidate 1 emptyState butter299) (identityKey eggs) = None"
      by (simp add: other_keys_kept example_keys emptyState_def)
    ultimately show ?thesis
      by (simp add: reconcile_def writes_candidate example_keys)
  qed
  ultimately have w: "writes (processScrapeResults 1 dairyBatch emptyState) =
      [Insert butter299, Insert eggs]"
    by simp
  from ok c example_keys(3) p r w show ?thesis by (intro conjI)
qed

section \<open>One category page: outcomes\<close>

lemma scrapeSite_wait_rejected:
  "newPage page = Resolved a \<Longrightarrow> goto page = Resolved b \<Longrightarrow> waitForSelector page = Rejected e \<Longrightarrow>
   scrapeSite penv ex page url recursive =
     Some (Inl e, [NewPage, Goto url, WaitForSelector ''.AutoGrid''])"
  by (simp add: scrapeSite_def)

lemma scrapeSite_wait_null:
  "newPage page = Resolved a \<Longrightarrow> goto page = Resolved b \<Longrightarrow> waitForSelector page = Resolved None \<Longrightarrow>
   scrapeSite penv ex page url recursive =
     Some (Inr None, [NewPage, Goto url, WaitForSelector ''.AutoGrid''])"
  by (simp add: scrapeSite_def)

lemma scrapeSite_first_page:
  "newPage page = Resolved a \<Longrightarrow> goto page = Resolved b \<Longrightarrow>
   waitForSelector page = Resolved (Some grid) \<Longrightarrow>
   scrapeSite penv ex page url False =
     Some (Inr (Some (scrapePage ex (grid 0))),
           [NewPage, Goto url, WaitForSelector ''.AutoGrid'', ScrapePage 0])"
  by (simp add: scrapeSite_def)

text \<open>
  C4. \<^verbatim>\<open>scrapeSite\<close> waits for \<^verbatim>\<open>.AutoGrid\<close>. When the wait times out, which is how the
  library reports a container that never appeared, the error is thrown out of
  \<^verbatim>\<open>scrapeSite\<close>: no \<^verbatim>\<open>try\<close> encloses the wait. \<^verbatim>\<open>null\<close> is returned as a value only when the
  wait resolves to \<^verbatim>\<open>null\<close>, and a grid that is there with no cell in it gives the empty
  list.
\<close>

theorem scrapeSite_timeout_is_thrown:
  "scrapeSite penv ex gridNeverAppears url recursive =
     Some (Inl TimeoutError, [NewPage, Goto url, WaitForSelector ''.AutoGrid'']) \<and>
   scrapeSite penv ex gridHandleNull url recursive =
     Some (Inr None, [NewPage, Goto url, WaitForSelector ''.AutoGrid'']) \<and>
   scrapeSite penv ex emptyGrid url False =
     Some (Inr (Some []), [NewPage, Goto url, WaitForSelector ''.AutoGrid'', ScrapePage 0])"
  by (simp add: scrapeSite_def gridNeverAppears_def gridHandleNull_def emptyGrid_def scrapePage_def)


section \<open>The coordinator and the Fred Meyer job\<close>

lemma scrapeSite_not_recursive:
  "\<exists>res log. scrapeSite penv ex page url False = Some (res, log) \<and>
      set log \<subseteq> {NewPage, Goto url, WaitForSelector ''.AutoGrid'', ScrapePage 0}"
  by (cases "newPage page"; cases "goto page"; cases "waitForSelector page")
     (auto simp add: scrapeSite_def Let_def split: option.splits)

text \<open>
  C9. \<^verbatim>\<open>fredMeyerScraper\<close> passes \<^verbatim>\<open>false\<close> for \<^verbatim>\<open>scrapeRecursively\<close>, so each of its six
  categories is \<^verbatim>\<open>scrapeSite\<close> with the flag off. With the flag off \<^verbatim>\<open>scrapeSite\<close> always
  returns, it opens the page, navigates, waits for the grid and reads it once as it stands
  before any click: there is no sleep, no probe and no click among its effects, and
  with the grid found the result is the extraction of the first page.
\<close>

theorem fredMeyerScraper_first_page_only:
  "fredMeyerScraper penv ex site =
     map (\<lambda>(category, url).
            (category, categoryResult (map_option fst (scrapeSite penv ex (site url) url False))))
         fredMeyerUrls \<and>
   (\<exists>res log. scrapeSite penv ex page url False = Some (res, log) \<and>
      set log \<subseteq> {NewPage, Goto url, WaitForSelector ''.AutoGrid'', ScrapePage 0} \<and>
      (newPage page = Resolved () \<and> goto page = Resolved () \<and>
       waitForSelector page = Resolved (Some grid) \<longrightarrow>
         res = Inr (Some (scrapePage ex (grid 0)))))"
proof -
  have "fredMeyerScraper penv ex site =
     map (\<lambda>(category, url).
            (category, categoryResult (map_option fst (scrapeSite penv ex (site url) url False))))
         fredMeyerUrls"
    by (simp add: fredMeyerScraper_def scrapeMultipleURLs_def)
  moreover obtain res log where r: "scrapeSite penv ex page url False = Some (res, log)"
    and l: "set log \<subseteq> {NewPage, Goto url, WaitForSelector ''.AutoGrid'', ScrapePage 0}"
    using scrapeSite_not_recursive by blast
  moreover have "res = Inr (Some (scrapePage ex (grid 0)))"
    if "newPage page = Resolved () \<and> goto page = Resolved () \<and>
       waitForSelector page = Resolved (Some grid)"
    using scrapeSite_first_page [of page "()" "()" grid penv ex url] that r by simp
  ultimately show ?thesis by blast
qed

theorem fredMeyerScraper_first_page_only_witness:
  "newPage twoMorePages = Resolved () \<and> goto twoMorePages = Resolved () \<and>
   scrapeSite noDelays missingEverything twoMorePages ''u'' False =
     Some (Inr (Some (scrapePage missingEverything [0, 1, 2])),
           [NewPage, Goto ''u'', WaitForSelector ''.AutoGrid'', ScrapePage 0]) \<and>
   map (map_option length \<circ> snd) (fredMeyerScraper noDelays missingEverything (\<lambda>url. twoMorePages)) =
     [Some 3, Some 3, Some 3, Some 3, Some 3, Some 3]"
proof -
  have w: "waitForSelector twoMorePages = Resolved (Some (\<lambda>clicks. [0..<3 * Suc clicks]))"
    and n: "newPage twoMorePages = Resolved ()" and g: "goto twoMorePages = Resolved ()"
    by (simp_all add: twoMorePages_def)
  have cells: "[0..<3 * Suc 0] = [0, 1, 2]" by (simp add: upt_rec)
  from fredMeyerScraper_first_page_only
    [of noDelays missingEverything "\<lambda>url. twoMorePages" twoMorePages "''u''"
        "\<lambda>clicks. [0..<3 * Suc clicks]"] n g w
  obtain log where
    f: "fredMeyerScraper noDelays missingEverything (\<lambda>url. twoMorePages) =
     map (\<lambda>(category, url).
            (category, categoryResult (map_option fst
               (scrapeSite noDelays missingEverything twoMorePages url False))))
         fredMeyerUrls"
    and s: "scrapeSite noDelays missingEverything twoMorePages ''u'' False =
      Some (Inr (Some (scrapePage missingEverything [0..<3 * Suc 0])), log)"
    by blast
  have s': "scrapeSite noDelays missingEverything twoMorePages url False =
      Some (Inr (Some (scrapePage missingEverything [0, 1, 2])),
            [NewPage, Goto url, WaitForSelector ''.AutoGrid'', ScrapePage 0])" for url
    using scrapeSite_first_page [OF n g w] cells by simp
  have len: "length (scrapePage missingEverything [0, 1, 2]) = 3"
    by (simp add: scrapePage_def)
  show ?thesis using n g s' f len
    by (simp add: fredMeyerUrls_def categoryResult_def)
qed

lemma scrapeMultipleURLs_nth:
  "i < length urls \<Longrightarrow>
   scrapeMultipleURLs urls recursive scrapeFn ! i =
     (fst (urls ! i), categoryResult (scrapeFn (snd (urls ! i)) recursive))"
  by (simp add: scrapeMultipleURLs_def case_prod_unfold)

text \<open>
  C2. The batch of \<^verbatim>\<open>scrapeMultipleURLs\<close> has the caller's keys, in the caller's order, none
  added and none dropped. The entry of a category depends on the outcome of its own scrape
  alone: a scrape that throws, times out or returns \<^verbatim>\<open>null\<close> gives \<^verbatim>\<open>null\<close> under its key,
  and two scrape functions that differ on one category give the same entries for all the
  others. The batch of \<^verbatim>\<open>fredMeyerScraper\<close> has the six keys meat, produce, milk, cheese,
  butter, eggs.
\<close>

theorem scrapeMultipleURLs_keys:
  "map fst (scrapeMultipleURLs urls recursive scrapeFn) = map fst urls \<and>
   (\<forall>i<length urls.
      scrapeMultipleURLs urls recursive scrapeFn ! i =
        (fst (urls ! i), categoryResult (scrapeFn (snd (urls ! i)) recursive))) \<and>
   ((\<forall>j<length urls. j \<noteq> i \<longrightarrow>
       scrapeFn (snd (urls ! j)) recursive = scrapeFn' (snd (urls ! j)) recursive) \<longrightarrow>
    (\<forall>j<length urls. j \<noteq> i \<longrightarrow>
       scrapeMultipleURLs urls recursive scrapeFn ! j =
       scrapeMultipleURLs urls recursive scrapeFn' ! j)) \<and>
   categoryResult None = None \<and> categoryResult (Some (Inl e)) = None \<and>
   categoryResult (Some (Inr None)) = None \<and>
   categoryResult (Some (Inr (Some products))) = Some products \<and>
   map fst (fredMeyerScraper penv ex site) =
     [''meat'', ''produce'', ''milk'', ''cheese'', ''butter'', ''eggs'']"
proof -
  have keys: "map fst (scrapeMultipleURLs urls recursive scrapeFn) = map fst urls"
    by (simp add: scrapeMultipleURLs_def case_prod_unfold comp_def)
  have fm: "map fst (fredMeyerScraper penv ex site) =
     [''meat'', ''produce'', ''milk'', ''cheese'', ''butter'', ''eggs'']"
    by (simp add: scrapeMultipleURLs_def fredMeyerScraper_def fredMeyerUrls_def)
  have res: "categoryResult None = None \<and> categoryResult (Some (Inl e)) = None \<and>
   categoryResult (Some (Inr None)) = None \<and>
   categoryResult (Some (Inr (Some products))) = Some products"
    by (simp add: categoryResult_def)
  have iso: "(\<forall>j<length urls. j \<noteq> i \<longrightarrow>
       scrapeFn (snd (urls ! j)) recursive = scrapeFn' (snd (urls ! j)) recursive) \<longrightarrow>
    (\<forall>j<length urls. j \<noteq> i \<longrightarrow>
       scrapeMultipleURLs urls recursive scrapeFn ! j =
       scrapeMultipleURLs urls recursive scrapeFn' ! j)"
    by (simp add: scrapeMultipleURLs_nth)
  from keys fm res iso show ?thesis by (simp add: scrapeMultipleURLs_nth)
qed

theorem scrapeMultipleURLs_keys_witness:
  "(1::nat) < length [(''meat'', ''urlA''), (''produce'', ''urlB'')] \<and>
   scrapeMultipleURLs [(''meat'', ''urlA''), (''produce'', ''urlB'')] False throwsOnA ! 0 =
     (''meat'', None) \<and>
   scrapeMultipleURLs [(''meat'', ''urlA''), (''produce'', ''urlB'')] False throwsOnA ! 1 =
     (''produce'', Some [eggs]) \<and>
   map fst (scrapeMultipleURLs [(''meat'', ''urlA''), (''produce'', ''urlB'')] False throwsOnA) =
     [''meat'', ''produce'']"
proof -
  note inst = scrapeMultipleURLs_keys
    [of "[(''meat'', ''urlA''), (''produce'', ''urlB'')]" False throwsOnA 0 throwsOnA
        NavigationError "[eggs]" noDelays missingEverything "\<lambda>url. twoMorePages"]
  from inst have nth: "\<forall>i<length [(''meat'', ''urlA''), (''produce'', ''urlB'')].
      scrapeMultipleURLs [(''meat'', ''urlA''), (''produce'', ''urlB'')] False throwsOnA ! i =
        (fst ([(''meat'', ''urlA''), (''produce'', ''urlB'')] ! i),
         categoryResult (throwsOnA (snd ([(''meat'', ''urlA''), (''produce'', ''urlB'')] ! i)) False))"
    by (rule conjunct2 [THEN conjunct1])
  from inst have keys: "map fst (scrapeMultipleURLs [(''meat'', ''urlA''), (''produce'', ''urlB'')] False throwsOnA) =
      map fst [(''meat'', ''urlA''), (''produce'', ''urlB'')]"
    by (rule conjunct1)
  have l: "(1::nat) < length [(''meat'', ''urlA''), (''produce'', ''urlB'')]" by simp
  have l0: "(0::nat) < length [(''meat'', ''urlA''), (''produce'', ''urlB'')]" by simp
  from nth l0 have "scrapeMultipleURLs [(''meat'', ''urlA''), (''produce'', ''urlB'')] False throwsOnA ! 0 =
        (fst ([(''meat'', ''urlA''), (''produce'', ''urlB'')] ! 0),
         categoryResult (throwsOnA (snd ([(''meat'', ''urlA''), (''produce'', ''urlB'')] ! 0)) False))"
    by blast
  then have a: "scrapeMultipleURLs [(''meat'', ''urlA''), (''produce'', ''urlB'')] False throwsOnA ! 0 =
     (''meat'', None)"
    by (simp add: throwsOnA_def categoryResult_def)
  from nth l have "scrapeMultipleURLs [(''meat'', ''urlA''), (''produce'', ''urlB'')] False throwsOnA ! 1 =
        (fst ([(''meat'', ''urlA''), (''produce'', ''urlB'')] ! 1),
         categoryResult (throwsOnA (snd ([(''meat'', ''urlA''), (''produce'', ''urlB'')] ! 1)) False))"
    by blast
  then have b: "scrapeMultipleURLs [(''meat'', ''urlA''), (''produce'', ''urlB'')] False throwsOnA ! 1 =
     (''produce'', Some [eggs])"
    by (simp add: throwsOnA_def categoryResult_def)
  from keys have k: "map fst (scrapeMultipleURLs [(''meat'', ''urlA''), (''produce'', ''urlB'')] False throwsOnA) =
     [''meat'', ''produce'']"
    by simp
  from l a b k show ?thesis by (intro conjI)
qed

end
